theory Spec2Isabelle
  imports Main "HOL-Library.List_Lexorder" "HOL-Library.Product_Lexorder"
begin

section \<open>Strings, tables and the upstream service\<close>

text \<open>
  A Python \<open>str\<close> is a sequence of Unicode code points; a code point is a natural
  number here, and \<open>ustr\<close> reads a literal of the source.  Strings are compared as
  Python compares them: lexicographically by code point.
\<close>

type_synonym ustring = "nat list"

definition ustr :: "string \<Rightarrow> ustring" where
  "ustr s = map of_char s"

text \<open>
  A table (\<open>pandas.DataFrame\<close>) read from CSV text: the column labels and the rows.
  A cell of a text column is a string or missing (\<open>NaN\<close>); a row gives the cells by
  column label, and a label the row does not have reads as \<open>NaN\<close>.
\<close>

datatype cell = Str ustring | NaN

type_synonym row = "(ustring \<times> cell) list"

record dataframe =
  columns :: "ustring list"
  rows :: "row list"

definition cell_at :: "row \<Rightarrow> ustring \<Rightarrow> cell" where
  "cell_at r c = (case map_of r c of Some v \<Rightarrow> v | None \<Rightarrow> NaN)"

text \<open>\<open>pd.DataFrame()\<close>\<close>

definition empty_frame :: dataframe where
  "empty_frame = \<lparr>columns = [], rows = []\<rparr>"

text \<open>\<open>df.empty\<close>: some axis has length 0.  \<open>len(df)\<close> is \<open>length (rows df)\<close>.\<close>

definition df_empty :: "dataframe \<Rightarrow> bool" where
  "df_empty df \<longleftrightarrow> columns df = [] \<or> rows df = []"

text \<open>\<open>pd.concat([a, b], ignore_index=True)\<close>: the rows of \<open>a\<close>, then those of \<open>b\<close>.\<close>

definition pd_concat :: "dataframe \<Rightarrow> dataframe \<Rightarrow> dataframe" where
  "pd_concat a b =
     \<lparr>columns = columns a @ filter (\<lambda>c. c \<notin> set (columns a)) (columns b),
      rows = rows a @ rows b\<rparr>"

text \<open>
  What one \<open>requests.get\<close> of a page followed by \<open>pd.read_csv\<close> yields: the request
  raises, or there is a response with a status code whose text parses to a table or makes
  \<open>read_csv\<close> raise (\<open>None\<close>).
\<close>

datatype reply = RequestFailed | Reply int "dataframe option"

section \<open>\<open>clean_filename\<close>\<close>

text \<open>The classes of the pattern \<open>[^a-zA-Z0-9\s-]\<close>; \<open>\s\<close> is Unicode whitespace.\<close>

definition is_ascii_alnum :: "nat \<Rightarrow> bool" where
  "is_ascii_alnum c \<longleftrightarrow>
     (97 \<le> c \<and> c \<le> 122) \<or> (65 \<le> c \<and> c \<le> 90) \<or> (48 \<le> c \<and> c \<le> 57)"

definition py_isspace :: "nat \<Rightarrow> bool" where
  "py_isspace c \<longleftrightarrow>
     (9 \<le> c \<and> c \<le> 13) \<or> (28 \<le> c \<and> c \<le> 32) \<or> c = 133 \<or> c = 160 \<or> c = 5760 \<or>
     (8192 \<le> c \<and> c \<le> 8202) \<or> c = 8232 \<or> c = 8233 \<or> c = 8239 \<or> c = 8287 \<or> c = 12288"

definition hyphen :: nat where "hyphen = 45"
definition space :: nat where "space = 32"
definition underscore :: nat where "underscore = 95"

text \<open>A character matches \<open>[^a-zA-Z0-9\s-]\<close>.\<close>

definition matches_removed :: "nat \<Rightarrow> bool" where
  "matches_removed c \<longleftrightarrow> \<not> (is_ascii_alnum c \<or> py_isspace c \<or> c = hyphen)"

text \<open>\<open>re.sub(pattern, '', text)\<close> for a pattern that matches single characters.\<close>

definition re_sub_delete :: "(nat \<Rightarrow> bool) \<Rightarrow> ustring \<Rightarrow> ustring" where
  "re_sub_delete p text = filter (\<lambda>c. \<not> p c) text"

text \<open>\<open>s.replace(old, new)\<close> for single characters.\<close>

definition replace_char :: "nat \<Rightarrow> nat \<Rightarrow> ustring \<Rightarrow> ustring" where
  "replace_char old new s = map (\<lambda>c. if c = old then new else c) s"

definition clean_filename :: "ustring \<Rightarrow> ustring" where
  "clean_filename text =
     (let cleaned = re_sub_delete matches_removed text;
          cleaned = replace_char space underscore cleaned
      in cleaned)"

text \<open>The property in the words of the specification: alphanumeric or underscore only.\<close>

definition alnum_or_underscore :: "ustring \<Rightarrow> bool" where
  "alnum_or_underscore s = list_all (\<lambda>c. is_ascii_alnum c \<or> c = underscore) s"

section \<open>The cache\<close>

text \<open>
  Times are \<open>datetime\<close> values in microseconds, the resolution of \<open>datetime\<close> and
  \<open>timedelta\<close>; \<open>memory_cache\<close> maps a year to the time of storing and the table.
\<close>

type_synonym time = int

type_synonym cache = "nat \<rightharpoonup> (time \<times> dataframe)"

definition CACHE_DURATION :: int where
  "CACHE_DURATION = 30 * 60 * 1000000"

definition get_cached_data :: "time \<Rightarrow> nat \<Rightarrow> cache \<Rightarrow> dataframe option \<times> cache" where
  "get_cached_data now year memory_cache =
     (case memory_cache year of
        Some (cached_time, data) \<Rightarrow>
          if now - cached_time < CACHE_DURATION then (Some data, memory_cache)
          else (None, memory_cache(year := None))
      | None \<Rightarrow> (None, memory_cache))"

definition cache_data :: "time \<Rightarrow> nat \<Rightarrow> dataframe \<Rightarrow> cache \<Rightarrow> cache" where
  "cache_data now year data memory_cache = memory_cache(year \<mapsto> (now, data))"

section \<open>\<open>fetch_nhtsa_data\<close>\<close>

definition max_pages :: nat where
  "max_pages = 10"

text \<open>
  The pagination loop.  \<open>get\<close> is the upstream service for the year, by page number; the
  result is \<open>all_data\<close> and the pages that were requested, in order.  Every \<open>break\<close>
  of the source, and the \<open>except\<close> branch, leaves the loop with \<open>all_data\<close> as it is.
\<close>

function fetch_pages :: "(nat \<Rightarrow> reply) \<Rightarrow> nat \<Rightarrow> dataframe \<Rightarrow> dataframe \<times> nat list" where
  "fetch_pages get page all_data =
     (if page \<le> max_pages then
        (case get page of
           RequestFailed \<Rightarrow> (all_data, [page])
         | Reply status_code body \<Rightarrow>
             if status_code \<noteq> 200 then (all_data, [page])
             else (case body of
                     None \<Rightarrow> (all_data, [page])
                   | Some df \<Rightarrow>
                       if df_empty df \<or> length (rows df) < 10 then (all_data, [page])
                       else (case fetch_pages get (page + 1) (pd_concat all_data df) of
                               (result, requested) \<Rightarrow> (result, page # requested))))
      else (all_data, []))"
  by pat_completeness auto
termination
  by (relation "measure (\<lambda>(get, page, all_data). max_pages + 1 - page)") auto

declare fetch_pages.simps [simp del]

text \<open>
  The ways a page ends the loop: a status other than 200, a page that is empty or has fewer
  than 10 rows, or an exception (the request or \<open>read_csv\<close> raises).
\<close>

definition bad_status :: "reply \<Rightarrow> bool" where
  "bad_status r = (case r of Reply status_code body \<Rightarrow> status_code \<noteq> 200 | RequestFailed \<Rightarrow> False)"

definition short_page :: "reply \<Rightarrow> bool" where
  "short_page r = (case r of Reply status_code (Some df) \<Rightarrow>
       status_code = 200 \<and> (df_empty df \<or> length (rows df) < 10) | _ \<Rightarrow> False)"

definition raised :: "reply \<Rightarrow> bool" where
  "raised r = (case r of RequestFailed \<Rightarrow> True | Reply status_code None \<Rightarrow> status_code = 200 | _ \<Rightarrow> False)"

definition page_ends :: "reply \<Rightarrow> bool" where
  "page_ends r \<longleftrightarrow> bad_status r \<or> short_page r \<or> raised r"

definition page_frame :: "reply \<Rightarrow> dataframe" where
  "page_frame r = (case r of Reply status_code (Some df) \<Rightarrow> df | _ \<Rightarrow> empty_frame)"

text \<open>
  \<open>fetch_nhtsa_data\<close>: \<open>upstream\<close> is the remote service by year and page, \<open>now\<close> the
  clock when the cache is read and \<open>now'\<close> the clock when the result is stored.  The
  result is the table, the pages requested and the cache afterwards.
\<close>

definition fetch_nhtsa_data ::
  "(nat \<Rightarrow> nat \<Rightarrow> reply) \<Rightarrow> time \<Rightarrow> time \<Rightarrow> nat \<Rightarrow> cache \<Rightarrow> dataframe \<times> nat list \<times> cache" where
  "fetch_nhtsa_data upstream now now' year memory_cache =
     (case get_cached_data now year memory_cache of
        (Some cached_data, memory_cache') \<Rightarrow> (cached_data, [], memory_cache')
      | (None, memory_cache') \<Rightarrow>
          (case fetch_pages (upstream year) 1 empty_frame of
             (all_data, requested) \<Rightarrow>
               (all_data, requested,
                if \<not> df_empty all_data then cache_data now' year all_data memory_cache'
                else memory_cache')))"

section \<open>The cache invariant and sample pages\<close>

text \<open>
  No entry of the cache holds an empty table; the cache states the program reaches start
  from the empty cache, and each request runs \<open>fetch_nhtsa_data\<close> once.
\<close>

definition cache_ok :: "cache \<Rightarrow> bool" where
  "cache_ok memory_cache \<longleftrightarrow>
     (\<forall>year cached_time data. memory_cache year = Some (cached_time, data) \<longrightarrow> \<not> df_empty data)"

inductive reachable :: "cache \<Rightarrow> bool" where
  start: "reachable Map.empty"
| request: "reachable memory_cache \<Longrightarrow>
     fetch_nhtsa_data upstream now now' year memory_cache = (data, requested, memory_cache') \<Longrightarrow>
     reachable memory_cache'"

text \<open>A page of ten records, and a shorter one, used to run the loop.\<close>

definition sample_row :: "nat \<Rightarrow> row" where
  "sample_row n = [(ustr ''manufacturername'', Str [65 + n]), (ustr ''name'', Str [97 + n])]"

definition sample_page :: "nat \<Rightarrow> dataframe" where
  "sample_page n =
     \<lparr>columns = [ustr ''manufacturername'', ustr ''name''], rows = map sample_row [0..<n]\<rparr>"

definition sample_upstream :: "nat \<Rightarrow> nat \<Rightarrow> reply" where
  "sample_upstream year page =
     (if page = 1 then Reply 200 (Some (sample_page 10))
      else if page = 2 then Reply 200 (Some (sample_page 3))
      else Reply 500 None)"

definition failing_upstream :: "nat \<Rightarrow> nat \<Rightarrow> reply" where
  "failing_upstream year page = Reply 503 None"

section \<open>Values, responses and pandas operations of the views\<close>

text \<open>
  The exceptions the views can raise, JSON values, and what a view gives back:
  \<open>jsonify(...)\<close> (a JSON object, status 200), \<open>send_file(...)\<close> (the content, whether
  it is an attachment, and the download name; status 200), or an exception the view does not
  catch, which Flask answers with status 500.
\<close>

datatype exn = KeyError ustring | TypeError | AttributeError

datatype json = JStr ustring | JNaN | JList "json list" | JObj "(string \<times> json) list"

datatype response =
    Jsonify "(string \<times> json) list"
  | SendFile "nat list" bool ustring
  | Uncaught exn

definition http_status :: "response \<Rightarrow> nat" where
  "http_status r = (case r of Uncaught e \<Rightarrow> 500 | _ \<Rightarrow> 200)"

definition has_error_field :: "response \<Rightarrow> bool" where
  "has_error_field r = (case r of Jsonify obj \<Rightarrow> ''error'' \<in> fst ` set obj | _ \<Rightarrow> False)"

text \<open>\<open>str(n)\<close> and \<open>f'{n}'\<close> for integers, and \<open>str(x)\<close> for a cell.\<close>

function str_of_nat :: "nat \<Rightarrow> ustring" where
  "str_of_nat n = (if n < 10 then [48 + n] else str_of_nat (n div 10) @ [48 + n mod 10])"
  by pat_completeness auto
termination
  by (relation "measure id") auto

declare str_of_nat.simps [simp del]

definition str_of_int :: "int \<Rightarrow> ustring" where
  "str_of_int i = (if i < 0 then hyphen # str_of_nat (nat (- i)) else str_of_nat (nat i))"

fun str_of_cell :: "cell \<Rightarrow> ustring" where
  "str_of_cell (Str s) = s"
| "str_of_cell NaN = ustr ''nan''"

fun json_of_cell :: "cell \<Rightarrow> json" where
  "json_of_cell (Str s) = JStr s"
| "json_of_cell NaN = JNaN"

fun is_Str :: "cell \<Rightarrow> bool" where
  "is_Str (Str s) = True"
| "is_Str NaN = False"

text \<open>The column labels the views use.\<close>

definition col_manufacturername :: ustring where "col_manufacturername = ustr ''manufacturername''"
definition col_name :: ustring where "col_name = ustr ''name''"
definition col_letterdate :: ustring where "col_letterdate = ustr ''letterdate''"
definition col_url :: ustring where "col_url = ustr ''url''"

text \<open>
  \<open>drop_duplicates(subset=...)\<close> and \<open>unique()\<close> keep the first occurrence of each
  key; missing values count as equal to each other.
\<close>

fun drop_duplicates_seen :: "('a \<Rightarrow> 'k) \<Rightarrow> 'k list \<Rightarrow> 'a list \<Rightarrow> 'a list" where
  "drop_duplicates_seen key seen [] = []"
| "drop_duplicates_seen key seen (x # xs) =
     (if key x \<in> set seen then drop_duplicates_seen key seen xs
      else x # drop_duplicates_seen key (key x # seen) xs)"

definition drop_duplicates :: "('a \<Rightarrow> 'k) \<Rightarrow> 'a list \<Rightarrow> 'a list" where
  "drop_duplicates key xs = drop_duplicates_seen key [] xs"

definition unique :: "'a list \<Rightarrow> 'a list" where
  "unique xs = drop_duplicates (\<lambda>x. x) xs"

text \<open>
  A stable insertion sort by a comparison.  \<open>sort_values\<close> with several keys is numpy's
  \<open>lexsort\<close>: a stable sort by each key in turn, from the last key to the first.  With
  one key pandas sorts the present values with numpy's default sort and puts the missing
  ones last; that sort may order equal keys differently from a stable one.
\<close>

fun insort_by :: "('a \<Rightarrow> 'a \<Rightarrow> bool) \<Rightarrow> 'a \<Rightarrow> 'a list \<Rightarrow> 'a list" where
  "insort_by le x [] = [x]"
| "insort_by le x (y # ys) = (if le x y then x # y # ys else y # insort_by le x ys)"

definition stable_sort :: "('a \<Rightarrow> 'a \<Rightarrow> bool) \<Rightarrow> 'a list \<Rightarrow> 'a list" where
  "stable_sort le xs = foldr (insort_by le) xs []"

text \<open>
  The orders of \<open>sort_values(..., na_position='last')\<close>: ascending strings with
  \<open>NaN\<close> last, and descending dates with \<open>NaT\<close> (\<open>None\<close>) last.
\<close>

fun cell_asc :: "cell \<Rightarrow> cell \<Rightarrow> bool" where
  "cell_asc (Str a) (Str b) = (a \<le> b)"
| "cell_asc (Str a) NaN = True"
| "cell_asc NaN (Str b) = False"
| "cell_asc NaN NaN = True"

fun date_desc :: "'t::linorder option \<Rightarrow> 't option \<Rightarrow> bool" where
  "date_desc (Some a) (Some b) = (b \<le> a)"
| "date_desc (Some a) None = True"
| "date_desc None (Some b) = False"
| "date_desc None None = True"

text \<open>
  \<open>pd.to_datetime(col, errors='coerce')\<close>.  The parser \<open>to_dt\<close> is pandas'; it may
  look at the whole column (pandas 2 takes one format from the first value).  A missing
  cell, or a string that does not parse, becomes \<open>NaT\<close>.
\<close>

definition to_datetime :: "(cell list \<Rightarrow> ustring \<Rightarrow> 't option) \<Rightarrow> cell list \<Rightarrow> 't option list" where
  "to_datetime to_dt col = map (\<lambda>c. case c of Str s \<Rightarrow> to_dt col s | NaN \<Rightarrow> None) col"

text \<open>\<open>s.strip()\<close>, and the truth value of a cell (\<open>NaN\<close> is a non-zero float).\<close>

definition py_strip :: "ustring \<Rightarrow> ustring" where
  "py_strip s = rev (dropWhile py_isspace (rev (dropWhile py_isspace s)))"

fun truthy :: "cell \<Rightarrow> bool" where
  "truthy (Str s) = (s \<noteq> [])"
| "truthy NaN = True"

text \<open>
  \<open>sorted(ms)\<close> on strings and \<open>NaN\<close>: comparing a \<open>str\<close> with a \<open>float\<close> raises
  \<open>TypeError\<close>, which happens as soon as both kinds are in the list.
\<close>

definition py_sorted :: "cell list \<Rightarrow> exn + cell list" where
  "py_sorted ms =
     (if list_ex is_Str ms \<and> NaN \<in> set ms then Inl TypeError
      else Inr (stable_sort cell_asc ms))"

text \<open>
  \<open>groupby(key)[val].max()\<close>: one row per key in ascending key order, rows with a
  missing key dropped.  The column holds strings, so the maximum of a group is the greatest
  string; missing values are skipped.
\<close>

definition max_cell :: "cell list \<Rightarrow> cell" where
  "max_cell vs = (case [s. Str s \<leftarrow> vs] of [] \<Rightarrow> NaN | s # ss \<Rightarrow> Str (fold max ss s))"

definition groupby_max :: "cell list \<Rightarrow> cell list \<Rightarrow> (ustring \<times> cell) list" where
  "groupby_max keys vals =
     map (\<lambda>k. (k, max_cell [v. (k', v) \<leftarrow> zip keys vals, k' = Str k]))
       (sort (remdups [k. Str k \<leftarrow> keys]))"

definition column_values :: "dataframe \<Rightarrow> ustring \<Rightarrow> cell list" where
  "column_values df c = map (\<lambda>r. cell_at r c) (rows df)"

definition error_json :: "ustring \<Rightarrow> response" where
  "error_json msg = Jsonify [(''error'', JStr msg)]"

section \<open>\<open>get_manufacturers\<close>\<close>

text \<open>
  The \<open>sort=date\<close> branch up to the sorted table, the \<open>sort=name\<close> branch up to the
  sorted list, and the view from the fetched table on.
\<close>

definition manufacturers_by_date ::
  "(cell list \<Rightarrow> ustring \<Rightarrow> 't::linorder option) \<Rightarrow> dataframe \<Rightarrow> (ustring \<times> 't option) list" where
  "manufacturers_by_date to_dt data =
     (let manufacturer_dates =
            groupby_max (column_values data col_manufacturername) (column_values data col_letterdate);
          letterdate = to_datetime to_dt (map snd manufacturer_dates);
          manufacturer_dates = zip (map fst manufacturer_dates) letterdate
      in stable_sort (\<lambda>a b. date_desc (snd a) (snd b)) manufacturer_dates)"

definition manufacturer_entry :: "('t \<Rightarrow> ustring) \<Rightarrow> ustring \<times> 't option \<Rightarrow> json" where
  "manufacturer_entry strftime r =
     JObj [(''name'', JStr (fst r)),
           (''latest_date'',
            JStr (case snd r of Some t \<Rightarrow> strftime t | None \<Rightarrow> ustr ''No date''))]"

definition manufacturers_by_name :: "dataframe \<Rightarrow> exn + cell list" where
  "manufacturers_by_name data =
     py_sorted (filter (\<lambda>m. truthy m \<and> py_strip (str_of_cell m) \<noteq> [])
                  (unique (column_values data col_manufacturername)))"

definition get_manufacturers_body ::
  "(cell list \<Rightarrow> ustring \<Rightarrow> 't::linorder option) \<Rightarrow> ('t \<Rightarrow> ustring) \<Rightarrow> nat \<Rightarrow> ustring \<Rightarrow>
     dataframe \<Rightarrow> response" where
  "get_manufacturers_body to_dt strftime year sort_by data =
     (if df_empty data then
        Jsonify [(''manufacturers'', JList []),
                 (''error'', JStr (ustr ''No data found for year '' @ str_of_nat year))]
      else if col_manufacturername \<notin> set (columns data) then
        Jsonify [(''manufacturers'', JList []),
                 (''error'', JStr (ustr ''Invalid data format received from API''))]
      else if sort_by = ustr ''date'' \<and> col_letterdate \<in> set (columns data) then
        Jsonify [(''manufacturers'',
                  JList (map (manufacturer_entry strftime) (manufacturers_by_date to_dt data))),
                 (''sorted_by'', JStr (ustr ''date''))]
      else
        (case manufacturers_by_name data of
           Inl e \<Rightarrow> Uncaught e
         | Inr manufacturers \<Rightarrow>
             Jsonify [(''manufacturers'', JList (map json_of_cell manufacturers)),
                      (''sorted_by'', JStr (ustr ''name''))]))"

text \<open>The route: \<open>sort\<close> defaults to \<open>date\<close>, and the table comes from \<open>fetch_nhtsa_data\<close>.\<close>

definition get_manufacturers ::
  "(nat \<Rightarrow> nat \<Rightarrow> reply) \<Rightarrow> time \<Rightarrow> time \<Rightarrow> (cell list \<Rightarrow> ustring \<Rightarrow> 't::linorder option) \<Rightarrow>
     ('t \<Rightarrow> ustring) \<Rightarrow> nat \<Rightarrow> ustring option \<Rightarrow> cache \<Rightarrow> response \<times> cache" where
  "get_manufacturers upstream now now' to_dt strftime year sort_arg memory_cache =
     (let sort_by = (case sort_arg of Some s \<Rightarrow> s | None \<Rightarrow> ustr ''date'')
      in case fetch_nhtsa_data upstream now now' year memory_cache of
           (data, requested, memory_cache') \<Rightarrow>
             (get_manufacturers_body to_dt strftime year sort_by data, memory_cache'))"

section \<open>\<open>get_versions\<close>\<close>

text \<open>
  A row of \<open>versions\<close>: the three columns kept, to which \<open>letterdate_dt\<close> is added as
  the second component of a pair.  The selected manufacturers are the strings of the
  request's list.
\<close>

record version_row =
  v_manufacturername :: cell
  v_name :: cell
  v_letterdate :: cell

definition version_of_row :: "row \<Rightarrow> version_row" where
  "version_of_row r =
     \<lparr>v_manufacturername = cell_at r col_manufacturername, v_name = cell_at r col_name,
      v_letterdate = cell_at r col_letterdate\<rparr>"

definition isin :: "ustring list \<Rightarrow> cell \<Rightarrow> bool" where
  "isin values c = (case c of Str s \<Rightarrow> s \<in> set values | NaN \<Rightarrow> False)"

definition filtered_rows :: "ustring list \<Rightarrow> dataframe \<Rightarrow> row list" where
  "filtered_rows manufacturers data =
     filter (\<lambda>r. isin manufacturers (cell_at r col_manufacturername)) (rows data)"

definition sort_versions :: "(version_row \<times> 't::linorder option) list \<Rightarrow> (version_row \<times> 't option) list" where
  "sort_versions versions =
     stable_sort (\<lambda>a b. date_desc (snd a) (snd b))
       (stable_sort (\<lambda>a b. cell_asc (v_manufacturername (fst a)) (v_manufacturername (fst b)))
          (stable_sort (\<lambda>a b. cell_asc (v_name (fst a)) (v_name (fst b))) versions))"

definition versions_table ::
  "(cell list \<Rightarrow> ustring \<Rightarrow> 't::linorder option) \<Rightarrow> row list \<Rightarrow> (version_row \<times> 't option) list" where
  "versions_table to_dt filtered_data =
     (let versions = drop_duplicates (\<lambda>v. (v_manufacturername v, v_name v))
                       (map version_of_row filtered_data);
          letterdate_dt = to_datetime to_dt (map v_letterdate versions);
          versions = zip versions letterdate_dt
      in sort_versions versions)"

definition version_entry :: "version_row \<times> 't option \<Rightarrow> json" where
  "version_entry r =
     (let v = fst r in
      JObj [(''manufacturer'', json_of_cell (v_manufacturername v)),
            (''name'', json_of_cell (v_name v)),
            (''date'', json_of_cell (v_letterdate v)),
            (''display'',
             JStr (str_of_cell (v_manufacturername v) @ ustr '' - '' @ str_of_cell (v_name v) @
                   ustr '' ('' @ str_of_cell (v_letterdate v) @ ustr '')''))])"

definition get_versions_body ::
  "(cell list \<Rightarrow> ustring \<Rightarrow> 't::linorder option) \<Rightarrow> nat \<Rightarrow> ustring list \<Rightarrow> dataframe \<Rightarrow> response" where
  "get_versions_body to_dt year manufacturers data =
     (if df_empty data then
        error_json (ustr ''No data available for year '' @ str_of_nat year)
      else if col_manufacturername \<notin> set (columns data) then
        Uncaught (KeyError col_manufacturername)
      else
        (let filtered_data = filtered_rows manufacturers data in
         if filtered_data = [] then
           error_json (ustr ''No versions found for selected manufacturers'')
         else if col_name \<notin> set (columns data) then Uncaught (KeyError col_name)
         else if col_letterdate \<notin> set (columns data) then Uncaught (KeyError col_letterdate)
         else Jsonify [(''versions'',
                        JList (map version_entry (versions_table to_dt filtered_data)))]))"

definition get_versions ::
  "(nat \<Rightarrow> nat \<Rightarrow> reply) \<Rightarrow> time \<Rightarrow> time \<Rightarrow> (cell list \<Rightarrow> ustring \<Rightarrow> 't::linorder option) \<Rightarrow>
     nat \<Rightarrow> ustring list \<Rightarrow> cache \<Rightarrow> response \<times> cache" where
  "get_versions upstream now now' to_dt year manufacturers memory_cache =
     (if manufacturers = [] then (error_json (ustr ''No manufacturers selected''), memory_cache)
      else case fetch_nhtsa_data upstream now now' year memory_cache of
             (data, requested, memory_cache') \<Rightarrow>
               (get_versions_body to_dt year manufacturers data, memory_cache'))"

section \<open>\<open>get_pdf\<close>\<close>

text \<open>
  The host of the PDF, asked for a URL (a cell of the \<open>url\<close> column): \<open>requests.get\<close>
  raises with a message, or answers with a status code and content.
\<close>

datatype http_method = GET | POST

datatype pdf_reply = PdfRaises ustring | PdfResponse int "nat list"

text \<open>
  Boolean masks: \<open>series == value\<close>, \<open>mask & mask\<close> and \<open>df[mask]\<close>.  A missing cell
  equals no string.
\<close>

definition series_eq :: "cell list \<Rightarrow> ustring \<Rightarrow> bool list" where
  "series_eq col v = map (\<lambda>c. c = Str v) col"

definition mask_and :: "bool list \<Rightarrow> bool list \<Rightarrow> bool list" where
  "mask_and a b = map (\<lambda>(x, y). x \<and> y) (zip a b)"

definition boolean_index :: "dataframe \<Rightarrow> bool list \<Rightarrow> row list" where
  "boolean_index df selected = map fst (filter snd (zip (rows df) selected))"

text \<open>
  \<open>series.str.lower()\<close>: a missing cell stays missing, and \<open>series.str\<close> raises
  \<open>AttributeError\<close> on a column without any string (a column of missing values only is a
  float column).
\<close>

fun cell_lower :: "(ustring \<Rightarrow> ustring) \<Rightarrow> cell \<Rightarrow> cell" where
  "cell_lower lower (Str s) = Str (lower s)"
| "cell_lower lower NaN = NaN"

definition str_lower :: "(ustring \<Rightarrow> ustring) \<Rightarrow> cell list \<Rightarrow> exn + cell list" where
  "str_lower lower col =
     (if list_ex is_Str col then Inr (map (cell_lower lower) col) else Inl AttributeError)"

text \<open>
  The lookup of \<open>get_pdf\<close> (lines 203 to 216): \<open>data[label]\<close> raises \<open>KeyError\<close> for
  a label that is not a column; \<open>lower\<close> is \<open>str.lower\<close>.
\<close>

definition lookup_version ::
  "(ustring \<Rightarrow> ustring) \<Rightarrow> ustring \<Rightarrow> ustring \<Rightarrow> dataframe \<Rightarrow> exn + row list" where
  "lookup_version lower manufacturer version nhtsa_data =
     (if col_manufacturername \<notin> set (columns nhtsa_data) then Inl (KeyError col_manufacturername)
      else if col_name \<notin> set (columns nhtsa_data) then Inl (KeyError col_name)
      else
        (let version_data =
               boolean_index nhtsa_data
                 (mask_and (series_eq (column_values nhtsa_data col_manufacturername) manufacturer)
                           (series_eq (column_values nhtsa_data col_name) version))
         in
         if version_data = [] then
           (case str_lower lower (column_values nhtsa_data col_manufacturername) of
              Inl e \<Rightarrow> Inl e
            | Inr manufacturers \<Rightarrow>
                (case str_lower lower (column_values nhtsa_data col_name) of
                   Inl e \<Rightarrow> Inl e
                 | Inr names \<Rightarrow>
                     Inr (boolean_index nhtsa_data
                            (mask_and (series_eq manufacturers (lower manufacturer))
                                      (series_eq names (lower version))))))
         else Inr version_data))"

definition pdf_filename :: "nat \<Rightarrow> ustring \<Rightarrow> ustring \<Rightarrow> ustring" where
  "pdf_filename year manufacturer version =
     str_of_nat year @ [underscore] @ clean_filename manufacturer @ [underscore] @
     clean_filename version @ ustr ''.pdf''"

definition quote :: nat where "quote = 34"

text \<open>
  Flask's \<open>send_file\<close> with a download name.  The name goes into the
  \<open>Content-Disposition\<close> header, and werkzeug refuses a header value with a carriage
  return or a line feed: it raises \<open>ValueError\<close>, whose message is \<open>header_error\<close>.
  Otherwise the result is the file response.
\<close>

definition send_file :: "ustring \<Rightarrow> nat list \<Rightarrow> bool \<Rightarrow> ustring \<Rightarrow> ustring + response" where
  "send_file header_error content as_attachment download_name =
     (if 10 \<in> set download_name \<or> 13 \<in> set download_name then Inl header_error
      else Inr (SendFile content as_attachment download_name))"

text \<open>
  The view from the fetched table on.  The request to the host and \<open>send_file\<close> are
  inside the \<open>try\<close>: an exception of either becomes the JSON error with its message.
\<close>

definition get_pdf_body ::
  "(ustring \<Rightarrow> ustring) \<Rightarrow> (cell \<Rightarrow> pdf_reply) \<Rightarrow> ustring \<Rightarrow> nat \<Rightarrow> http_method \<Rightarrow> ustring \<Rightarrow>
     ustring \<Rightarrow> dataframe \<Rightarrow> response" where
  "get_pdf_body lower pdf_host header_error year request_method manufacturer version nhtsa_data =
     (if df_empty nhtsa_data then
        error_json (ustr ''No data available for year '' @ str_of_nat year)
      else
        (case lookup_version lower manufacturer version nhtsa_data of
           Inl e \<Rightarrow> Uncaught e
         | Inr version_data \<Rightarrow>
             if version_data = [] then
               error_json (ustr ''Version '' @ [quote] @ version @ [quote] @
                           ustr '' not found for manufacturer '' @ [quote] @ manufacturer @ [quote])
             else if col_url \<notin> set (columns nhtsa_data) then
               error_json (ustr ''PDF URL not available in data'')
             else
               (let pdf_url = cell_at (hd version_data) col_url in
                case pdf_host pdf_url of
                  PdfRaises e \<Rightarrow> error_json (ustr ''Error accessing PDF: '' @ e)
                | PdfResponse status_code content \<Rightarrow>
                    if status_code = 200 then
                      (let filename = pdf_filename year manufacturer version in
                       case (if request_method = GET
                             then send_file header_error content False filename
                             else send_file header_error content True filename) of
                         Inl e \<Rightarrow> error_json (ustr ''Error accessing PDF: '' @ e)
                       | Inr file_response \<Rightarrow> file_response)
                    else
                      error_json (ustr ''Could not fetch PDF. Status code: '' @
                                  str_of_int status_code))))"

definition get_pdf ::
  "(nat \<Rightarrow> nat \<Rightarrow> reply) \<Rightarrow> time \<Rightarrow> time \<Rightarrow> (ustring \<Rightarrow> ustring) \<Rightarrow> (cell \<Rightarrow> pdf_reply) \<Rightarrow>
     ustring \<Rightarrow> nat \<Rightarrow> http_method \<Rightarrow> ustring option \<Rightarrow> ustring option \<Rightarrow> cache \<Rightarrow>
     response \<times> cache" where
  "get_pdf upstream now now' lower pdf_host header_error year request_method manufacturer version
     memory_cache =
     (case (manufacturer, version) of
        (Some m, Some v) \<Rightarrow>
          if m = [] \<or> v = [] then
            (error_json (ustr ''Missing manufacturer or version''), memory_cache)
          else
            (case fetch_nhtsa_data upstream now now' year memory_cache of
               (nhtsa_data, requested, memory_cache') \<Rightarrow>
                 (get_pdf_body lower pdf_host header_error year request_method m v nhtsa_data,
                  memory_cache'))
      | _ \<Rightarrow> (error_json (ustr ''Missing manufacturer or version''), memory_cache))"







definition blank :: "ustring \<Rightarrow> bool" where
  "blank s = list_all py_isspace s"

section \<open>Sample data\<close>

text \<open>
  A parser and a formatter for dates written \<open>M/D/YYYY\<close>, as \<open>letterdate\<close> has them;
  they stand for \<open>pd.to_datetime\<close> and \<open>strftime('%Y-%m-%d')\<close> in the examples.  A date
  is (year, month, day), ordered lexicographically.
\<close>

fun split_on :: "nat \<Rightarrow> ustring \<Rightarrow> ustring list" where
  "split_on sep [] = [[]]"
| "split_on sep (c # cs) =
     (if c = sep then [] # split_on sep cs
      else (case split_on sep cs of w # ws \<Rightarrow> (c # w) # ws | [] \<Rightarrow> [[c]]))"

definition number_of :: "ustring \<Rightarrow> nat option" where
  "number_of s =
     (if s \<noteq> [] \<and> list_all (\<lambda>c. 48 \<le> c \<and> c \<le> 57) s
      then Some (foldl (\<lambda>n c. 10 * n + (c - 48)) 0 s) else None)"

definition parse_mdy :: "cell list \<Rightarrow> ustring \<Rightarrow> (nat \<times> nat \<times> nat) option" where
  "parse_mdy col s =
     (case map number_of (split_on 47 s) of
        [Some m, Some d, Some y] \<Rightarrow>
          if 1 \<le> m \<and> m \<le> 12 \<and> 1 \<le> d \<and> d \<le> 31 then Some (y, m, d) else None
      | _ \<Rightarrow> None)"

definition zero_pad :: "nat \<Rightarrow> ustring \<Rightarrow> ustring" where
  "zero_pad n s = replicate (n - length s) 48 @ s"

definition iso_date :: "nat \<times> nat \<times> nat \<Rightarrow> ustring" where
  "iso_date t =
     (case t of (y, m, d) \<Rightarrow>
        zero_pad 4 (str_of_nat y) @ [hyphen] @ zero_pad 2 (str_of_nat m) @ [hyphen] @
        zero_pad 2 (str_of_nat d))"

text \<open>Lower case for ASCII letters, standing for \<open>str.lower\<close> in the examples.\<close>

definition ascii_lower :: "ustring \<Rightarrow> ustring" where
  "ascii_lower s = map (\<lambda>c. if 65 \<le> c \<and> c \<le> 90 then c + 32 else c) s"

text \<open>
  A page of ten letters: two of manufacturer A and eight equal ones of B.  It is served as
  page 1, and page 2 is empty.
\<close>

definition letter :: "string \<Rightarrow> string \<Rightarrow> string \<Rightarrow> string \<Rightarrow> row" where
  "letter m n d u =
     [(col_manufacturername, Str (ustr m)), (col_name, Str (ustr n)),
      (col_letterdate, Str (ustr d)), (col_url, Str (ustr u))]"

definition letters_page :: dataframe where
  "letters_page =
     \<lparr>columns = [col_manufacturername, col_name, col_letterdate, col_url],
      rows = [letter ''A'' ''v1'' ''9/5/2020'' ''u1'', letter ''A'' ''v2'' ''12/31/2020'' ''u2''] @
             replicate 8 (letter ''B'' ''s'' ''10/1/2020'' ''u3'')\<rparr>"

definition letters_upstream :: "nat \<Rightarrow> nat \<Rightarrow> reply" where
  "letters_upstream year page =
     (if page = 1 then Reply 200 (Some letters_page) else Reply 200 (Some empty_frame))"

text \<open>A page of ten letters whose manufacturer column has another label.\<close>

definition renamed_page :: dataframe where
  "renamed_page =
     \<lparr>columns = [ustr ''make'', col_name, col_letterdate, col_url],
      rows = replicate 10
        [(ustr ''make'', Str (ustr ''A'')), (col_name, Str (ustr ''v1'')),
         (col_letterdate, Str (ustr ''9/5/2020'')), (col_url, Str (ustr ''u1''))]\<rparr>"

definition renamed_upstream :: "nat \<Rightarrow> nat \<Rightarrow> reply" where
  "renamed_upstream year page =
     (if page = 1 then Reply 200 (Some renamed_page) else Reply 200 (Some empty_frame))"

text \<open>A page of ten letters, the first with a manufacturer name that is one space.\<close>

definition blank_page :: dataframe where
  "blank_page =
     \<lparr>columns = [col_manufacturername, col_name, col_letterdate, col_url],
      rows = letter '' '' ''v0'' ''1/1/2020'' ''u0'' #
             replicate 9 (letter ''A'' ''v1'' ''9/5/2020'' ''u1'')\<rparr>"


text \<open>A host that has the document \<open>u1\<close> only, and a message for werkzeug's error.\<close>

definition sample_header_error :: ustring where
  "sample_header_error = ustr ''Header values must not contain newline characters.''"

definition sample_pdf_host :: "cell \<Rightarrow> pdf_reply" where
  "sample_pdf_host u = (if u = Str (ustr ''u1'') then PdfResponse 200 [37, 80, 68, 70]
                        else PdfResponse 404 [])"

section \<open>Properties of the pagination loop\<close>

lemma fetch_pages_step:
  "fetch_pages get page all_data =
     (if page \<le> max_pages then
        if page_ends (get page) then (all_data, [page])
        else (case fetch_pages get (Suc page) (pd_concat all_data (page_frame (get page))) of
                (result, requested) \<Rightarrow> (result, page # requested))
      else (all_data, []))"
  by (subst fetch_pages.simps)
     (auto simp: page_ends_def bad_status_def short_page_def raised_def page_frame_def
           split: reply.splits option.splits)


lemma fetch_pages_induct [case_names stop step]:
  assumes stop: "\<And>page tbl. \<not> (page \<le> max_pages \<and> \<not> page_ends (get page)) \<Longrightarrow> P page tbl"
    and step: "\<And>page tbl. page \<le> max_pages \<Longrightarrow> \<not> page_ends (get page) \<Longrightarrow>
                 P (Suc page) (pd_concat tbl (page_frame (get page))) \<Longrightarrow> P page tbl"
  shows "P page tbl"
proof -
  have "\<forall>p d. Suc max_pages - p = n \<longrightarrow> P p d" for n
  proof (induction n)
    case 0
    then show ?case by (simp add: stop)
  next
    case (Suc n)
    show ?case
    proof (intro allI impI)
      fix p d
      assume m: "Suc max_pages - p = Suc n"
      show "P p d"
      proof (cases "p \<le> max_pages \<and> \<not> page_ends (get p)")
        case True
        from m have "Suc max_pages - Suc p = n" by simp
        with Suc.IH have ih: "P (Suc p) (pd_concat d (page_frame (get p)))" by blast
        from True have a: "p \<le> max_pages" and b: "\<not> page_ends (get p)" by simp_all
        from a b ih show ?thesis by (rule step)
      next
        case False
        then show ?thesis by (rule stop)
      qed
    qed
  qed
  then show ?thesis by simp
qed

lemma fetch_pages_requested:
  "fetch_pages get page tbl = (res, req) \<Longrightarrow> q \<in> set req \<Longrightarrow>
     page \<le> q \<and> q \<le> max_pages \<and> (\<forall>j. page \<le> j \<and> j < q \<longrightarrow> \<not> page_ends (get j))"
proof (induction page tbl arbitrary: res req rule: fetch_pages_induct [of get])
  case (stop page tbl)
  from stop.prems stop.hyps show ?case
    by (subst (asm) fetch_pages_step) (auto split: if_splits)
next
  case (step page tbl)
  obtain res' req' where
    r: "fetch_pages get (Suc page) (pd_concat tbl (page_frame (get page))) = (res', req')"
    by fastforce
  with step.prems(1) step.hyps have eq: "req = page # req'"
    by (subst (asm) fetch_pages_step) simp
  show ?case
  proof (cases "q = page")
    case True
    with step.hyps show ?thesis by auto
  next
    case False
    with step.prems(2) eq have "q \<in> set req'" by simp
    from step.IH [OF r this]
    have ih: "Suc page \<le> q" "q \<le> max_pages"
      "\<And>j. Suc page \<le> j \<Longrightarrow> j < q \<Longrightarrow> \<not> page_ends (get j)"
      by blast+
    have "\<not> page_ends (get j)" if "page \<le> j" "j < q" for j
    proof (cases "j = page")
      case True
      with step.hyps show ?thesis by simp
    next
      case False
      with that have "Suc page \<le> j" by simp
      then show ?thesis using that(2) by (rule ih(3))
    qed
    with ih(1,2) show ?thesis by simp
  qed
qed

lemma fetch_pages_consecutive:
  "fetch_pages get page tbl = (res, req) \<Longrightarrow> req = [page..<page + length req]"
proof (induction page tbl arbitrary: res req rule: fetch_pages_induct [of get])
  case (stop page tbl)
  from stop.prems stop.hyps show ?case
    by (subst (asm) fetch_pages_step) (auto split: if_splits)
next
  case (step page tbl)
  obtain res' req' where
    r: "fetch_pages get (Suc page) (pd_concat tbl (page_frame (get page))) = (res', req')"
    by fastforce
  with step.prems(1) step.hyps have eq: "req = page # req'"
    by (subst (asm) fetch_pages_step) simp
  from step.IH [OF r] have *: "req' = [Suc page..<Suc page + length req']" .
  have "[page..<page + length req] = page # [Suc page..<Suc page + length req']"
    unfolding eq by (subst upt_conv_Cons) simp_all
  with * eq show ?case by simp
qed

lemma fetch_pages_last:
  "fetch_pages get page tbl = (res, req) \<Longrightarrow> page \<le> max_pages \<Longrightarrow>
     req \<noteq> [] \<and> (page_ends (get (last req)) \<or> last req = max_pages)"
proof (induction page tbl arbitrary: res req rule: fetch_pages_induct [of get])
  case (stop page tbl)
  from stop.prems stop.hyps show ?case
    by (subst (asm) fetch_pages_step) (auto split: if_splits)
next
  case (step page tbl)
  obtain res' req' where
    r: "fetch_pages get (Suc page) (pd_concat tbl (page_frame (get page))) = (res', req')"
    by fastforce
  with step.prems(1) step.hyps have eq: "req = page # req'"
    by (subst (asm) fetch_pages_step) simp
  show ?case
  proof (cases "Suc page \<le> max_pages")
    case True
    from step.IH [OF r True] eq show ?thesis by simp
  next
    case False
    with step.hyps have p: "page = max_pages" by simp
    from r False have "req' = []"
      by (subst (asm) fetch_pages_step) simp
    with eq p show ?thesis by simp
  qed
qed

lemma rows_pd_concat: "rows (pd_concat a b) = rows a @ rows b"
  by (simp add: pd_concat_def)

lemma fetch_pages_rows:
  "fetch_pages get page tbl = (res, req) \<Longrightarrow>
     rows res = rows tbl @
       concat (map (\<lambda>p. rows (page_frame (get p))) (filter (\<lambda>p. \<not> page_ends (get p)) req))"
proof (induction page tbl arbitrary: res req rule: fetch_pages_induct [of get])
  case (stop page tbl)
  from stop.prems stop.hyps show ?case
    by (subst (asm) fetch_pages_step) (auto split: if_splits)
next
  case (step page tbl)
  obtain res' req' where
    r: "fetch_pages get (Suc page) (pd_concat tbl (page_frame (get page))) = (res', req')"
    by fastforce
  with step.prems(1) step.hyps have eq: "req = page # req'" "res = res'"
    by (subst (asm) fetch_pages_step, simp)+
  from step.IH [OF r] eq step.hyps show ?case
    by (simp add: rows_pd_concat)
qed

lemma full_page:
  "\<not> page_ends r \<Longrightarrow> \<exists>df. r = Reply 200 (Some df) \<and> \<not> df_empty df \<and> 10 \<le> length (rows df)"
  by (auto simp: page_ends_def bad_status_def short_page_def raised_def
           split: reply.splits option.splits)

lemma fetch_pages_first:
  "fetch_pages get 1 tbl = (res, req) \<Longrightarrow> \<exists>rest. req = 1 # rest"
  by (subst (asm) fetch_pages_step) (auto simp: max_pages_def split: if_splits prod.splits)

text \<open>
  Claim C1.  The pages the loop requests are 1, 2, ... without a gap, at most
  \<open>max_pages\<close> = 10 of them.  A page with a status other than 200, or with fewer than 10
  rows (or empty), or on which the request or the parsing raises, is the last page
  requested; every page before the last one was a full page with status 200; and when fewer
  than 10 pages were requested, the last one ended the loop in one of these ways.
\<close>

theorem pagination_stops:
  assumes "fetch_pages get 1 all_data = (result, requested)"
  shows "requested = [1..<Suc (length requested)] \<and> requested \<noteq> [] \<and>
         length requested \<le> max_pages \<and>
         (\<forall>p \<in> set requested. bad_status (get p) \<or> short_page (get p) \<or> raised (get p) \<longrightarrow>
            p = last requested) \<and>
         (\<forall>p \<in> set requested. p \<noteq> last requested \<longrightarrow>
            (\<exists>df. get p = Reply 200 (Some df) \<and> \<not> df_empty df \<and> 10 \<le> length (rows df))) \<and>
         (length requested < max_pages \<longrightarrow> page_ends (get (last requested)))"
proof -
  have cons: "requested = [1..<1 + length requested]"
    using assms by (rule fetch_pages_consecutive)
  have ne: "requested \<noteq> []"
    using fetch_pages_first [OF assms] by auto
  have lst: "last requested = length requested"
  proof -
    have "last [1..<1 + length requested] = length requested"
      using ne by (simp del: upt_Suc)
    with cons show ?thesis by simp
  qed
  have bound: "q \<le> max_pages" if "q \<in> set requested" for q
    using fetch_pages_requested [OF assms that] by simp
  have "length requested \<in> set requested"
    using ne lst last_in_set by metis
  then have len: "length requested \<le> max_pages" by (rule bound)
  have before: "\<not> page_ends (get j)" if "q \<in> set requested" "1 \<le> j" "j < q" for q j
    using fetch_pages_requested [OF assms that(1)] that(2,3) by simp
  have upper: "q \<le> length requested" if "q \<in> set requested" for q
  proof -
    from that cons have "q \<in> set [1..<1 + length requested]" by simp
    then show ?thesis by auto
  qed
  have low: "1 \<le> q" if "q \<in> set requested" for q
    using fetch_pages_requested [OF assms that] by simp
  have ends_last: "p = last requested" if "p \<in> set requested" "page_ends (get p)" for p
  proof (rule ccontr)
    assume "p \<noteq> last requested"
    with upper [OF that(1)] lst have "p < length requested" by simp
    with before [OF \<open>length requested \<in> set requested\<close> low [OF that(1)]] that(2)
    show False by simp
  qed
  have full: "\<exists>df. get p = Reply 200 (Some df) \<and> \<not> df_empty df \<and> 10 \<le> length (rows df)"
    if "p \<in> set requested" "p \<noteq> last requested" for p
    using ends_last [OF that(1)] that(2) full_page by blast
  have stop: "page_ends (get (last requested))" if "length requested < max_pages"
    using fetch_pages_last [OF assms] that lst by (auto simp: max_pages_def)
  from cons ne len ends_last full stop show ?thesis
    by (auto simp: page_ends_def)
qed

lemma sample_fetch:
  "fetch_pages (sample_upstream y) 1 empty_frame = (sample_page 10, [1, 2])"
  apply (subst fetch_pages.simps)
  apply (subst fetch_pages.simps)
  apply (simp add: sample_upstream_def max_pages_def sample_page_def df_empty_def pd_concat_def empty_frame_def)
  done


text \<open>The loop on \<open>sample_upstream\<close>: page 1 is full, page 2 is short and ends it.\<close>

theorem pagination_stops_witness:
  "fetch_pages (sample_upstream 2020) 1 empty_frame = (sample_page 10, [1, 2]) \<and>
   short_page (sample_upstream 2020 2) \<and> 2 = last [1, 2 :: nat] \<and>
   length [1, 2 :: nat] < max_pages \<and> page_ends (sample_upstream 2020 (last [1, 2]))"
  using pagination_stops [OF sample_fetch [of 2020]]
  by (simp add: sample_fetch [unfolded One_nat_def] short_page_def page_ends_def sample_upstream_def sample_page_def
        df_empty_def max_pages_def)

text \<open>
  Claim C2.  For a cached entry, \<open>get_cached_data\<close> returns the cached table exactly when
  the time since it was stored is strictly less than 30 minutes; then the cache is unchanged
  and \<open>fetch_nhtsa_data\<close> requests nothing.  At 30 minutes or later the entry is deleted,
  \<open>None\<close> is returned, and \<open>fetch_nhtsa_data\<close> requests page 1 again.
\<close>

theorem get_cached_data_expiry:
  assumes "memory_cache year = Some (cached_time, data)"
  shows "(fst (get_cached_data now year memory_cache) = Some data \<longleftrightarrow>
            now - cached_time < CACHE_DURATION) \<and>
         (now - cached_time < CACHE_DURATION \<longrightarrow>
            get_cached_data now year memory_cache = (Some data, memory_cache) \<and>
            fetch_nhtsa_data upstream now now' year memory_cache = (data, [], memory_cache)) \<and>
         (CACHE_DURATION \<le> now - cached_time \<longrightarrow>
            get_cached_data now year memory_cache = (None, memory_cache(year := None)) \<and>
            (\<exists>rest. fst (snd (fetch_nhtsa_data upstream now now' year memory_cache)) = 1 # rest))"
proof -
  have "\<exists>rest. fst (snd (fetch_nhtsa_data upstream now now' year memory_cache)) = 1 # rest"
    if "CACHE_DURATION \<le> now - cached_time"
  proof -
    obtain res req where f: "fetch_pages (upstream year) 1 empty_frame = (res, req)"
      by fastforce
    from fetch_pages_first [OF f] obtain rest where "req = 1 # rest" ..
    with f assms that show ?thesis
      by (simp add: fetch_nhtsa_data_def get_cached_data_def)
  qed
  with assms show ?thesis
    by (simp add: get_cached_data_def fetch_nhtsa_data_def)
qed

text \<open>At exactly 30 minutes the entry is gone; one microsecond earlier it is served.\<close>

theorem get_cached_data_expiry_witness:
  "get_cached_data 1800000000 2020 [2020 \<mapsto> (0, sample_page 10)] = (None, Map.empty) \<and>
   get_cached_data 1799999999 2020 [2020 \<mapsto> (0, sample_page 10)] =
     (Some (sample_page 10), [2020 \<mapsto> (0, sample_page 10)])"
  using get_cached_data_expiry [of "[2020 \<mapsto> (0, sample_page 10)]" 2020 0 "sample_page 10" 1800000000]
    get_cached_data_expiry [of "[2020 \<mapsto> (0, sample_page 10)]" 2020 0 "sample_page 10" 1799999999]
  by (simp add: CACHE_DURATION_def)

text \<open>
  Claim C3, as amended.  \<open>clean_filename\<close> removes exactly the characters that are neither
  ASCII letters or digits, nor whitespace, nor the hyphen, and turns every space into an
  underscore: every character of the output is an ASCII letter or digit, an underscore, a
  hyphen, or a whitespace character other than the space.
\<close>

theorem clean_filename_characters:
  "clean_filename text =
     map (\<lambda>c. if c = space then underscore else c)
       (filter (\<lambda>c. is_ascii_alnum c \<or> py_isspace c \<or> c = hyphen) text) \<and>
   (\<forall>c \<in> set (clean_filename text).
      is_ascii_alnum c \<or> c = underscore \<or> c = hyphen \<or> (py_isspace c \<and> c \<noteq> space))"
  by (auto simp: clean_filename_def re_sub_delete_def replace_char_def matches_removed_def)

theorem clean_filename_characters_witness:
  "clean_filename (ustr ''R&D a-b'') = ustr ''RD_a-b'' \<and>
   hyphen \<in> set (clean_filename (ustr ''R&D a-b'')) \<and>
   (is_ascii_alnum hyphen \<or> hyphen = underscore \<or> hyphen = hyphen \<or>
    (py_isspace hyphen \<and> hyphen \<noteq> space))"
  using clean_filename_characters [of "ustr ''R&D a-b''"]
  by (simp add: ustr_def is_ascii_alnum_def py_isspace_def hyphen_def space_def underscore_def)

text \<open>
  Claim C3, as stated, fails: the hyphen is kept, so an output character need not be
  alphanumeric or an underscore.
\<close>

theorem clean_filename_keeps_hyphen:
  "clean_filename (ustr ''a-b'') = ustr ''a-b'' \<and>
   \<not> alnum_or_underscore (clean_filename (ustr ''a-b''))"
  by (simp add: alnum_or_underscore_def clean_filename_def re_sub_delete_def replace_char_def
        matches_removed_def is_ascii_alnum_def py_isspace_def hyphen_def space_def
        underscore_def ustr_def)

text \<open>
  Claim C9.  When the table is fetched (not served from the cache), its rows are the rows of
  the requested pages that did not end the loop, in order; each of these pages has at least
  10 rows; and when a requested page \<open>p\<close> is short, the table holds exactly the rows of
  the pages before \<open>p\<close>, so the rows of the short page are not in it.
\<close>

theorem short_page_dropped:
  assumes "get_cached_data now year memory_cache = (None, memory_cache0)"
    and "fetch_nhtsa_data upstream now now' year memory_cache = (data, requested, memory_cache')"
  shows "rows data =
           concat (map (\<lambda>p. rows (page_frame (upstream year p)))
             (filter (\<lambda>p. \<not> page_ends (upstream year p)) requested)) \<and>
         (\<forall>p \<in> set requested. \<not> page_ends (upstream year p) \<longrightarrow>
            10 \<le> length (rows (page_frame (upstream year p)))) \<and>
         (\<forall>p \<in> set requested. short_page (upstream year p) \<longrightarrow>
            rows data = concat (map (\<lambda>q. rows (page_frame (upstream year q))) [1..<p]))"
proof -
  let ?get = "upstream year"
  from assms have f: "fetch_pages ?get 1 empty_frame = (data, requested)"
    by (auto simp: fetch_nhtsa_data_def split: prod.splits)
  have r: "rows data = concat (map (\<lambda>p. rows (page_frame (?get p)))
             (filter (\<lambda>p. \<not> page_ends (?get p)) requested))"
    using fetch_pages_rows [OF f] by (simp add: empty_frame_def)
  have full: "10 \<le> length (rows (page_frame (?get p)))" if "\<not> page_ends (?get p)" for p
    using full_page [OF that] by (auto simp: page_frame_def)
  have short: "rows data = concat (map (\<lambda>q. rows (page_frame (?get q))) [1..<p])"
    if p: "p \<in> set requested" and s: "short_page (?get p)" for p
  proof -
    from s have e: "page_ends (?get p)" by (simp add: page_ends_def)
    have cons: "requested = [1..<1 + length requested]"
      using f by (rule fetch_pages_consecutive)
    have le: "q \<le> p" if "q \<in> set requested" for q
    proof (rule ccontr)
      assume "\<not> q \<le> p"
      with fetch_pages_requested [OF f that] fetch_pages_requested [OF f p] e
      show False by auto
    qed
    have "length requested \<in> set requested"
    proof -
      from p have "requested \<noteq> []" by auto
      then have "length requested \<in> set [1..<1 + length requested]" by (cases requested) auto
      with cons show ?thesis by simp
    qed
    then have "length requested \<le> p" by (rule le)
    moreover from p cons have "p \<in> set [1..<1 + length requested]" by simp
    then have "1 \<le> p" "p \<le> length requested" by auto
    ultimately have "length requested = p" by simp
    with cons have req: "requested = [1..<p] @ [p]"
      using \<open>1 \<le> p\<close> by (metis Suc_eq_plus1_left upt_Suc_append)
    have good: "\<not> page_ends (?get j)" if "j \<in> set [1..<p]" for j
      using fetch_pages_requested [OF f p] that by auto
    then have "filter (\<lambda>p. \<not> page_ends (?get p)) [1..<p] = [1..<p]"
      by (intro filter_True) blast
    with e have "filter (\<lambda>p. \<not> page_ends (?get p)) ([1..<p] @ [p]) = [1..<p]" by simp
    then have "filter (\<lambda>p. \<not> page_ends (?get p)) requested = [1..<p]"
      by (simp only: req [symmetric])
    with r show ?thesis by (simp only:)
  qed
  from r full short show ?thesis by blast
qed

lemma sample_fetch_nhtsa:
  "fetch_nhtsa_data sample_upstream 0 5 2020 Map.empty =
     (sample_page 10, [1, 2], [2020 \<mapsto> (5, sample_page 10)])"
  by (simp add: fetch_nhtsa_data_def get_cached_data_def sample_fetch [unfolded One_nat_def]
        cache_data_def sample_page_def df_empty_def)

theorem short_page_dropped_witness:
  "get_cached_data 0 2020 Map.empty = (None, Map.empty) \<and>
   fetch_nhtsa_data sample_upstream 0 5 2020 Map.empty =
     (sample_page 10, [1, 2], [2020 \<mapsto> (5, sample_page 10)]) \<and>
   short_page (sample_upstream 2020 2) \<and>
   length (rows (page_frame (sample_upstream 2020 2))) = 3 \<and>
   rows (sample_page 10) = rows (page_frame (sample_upstream 2020 1))"
  using short_page_dropped [of 0 2020 Map.empty Map.empty sample_upstream 5 "sample_page 10" "[1, 2]"
      "[2020 \<mapsto> (5, sample_page 10)]"]
  by (simp add: sample_fetch_nhtsa get_cached_data_def short_page_def sample_upstream_def
        page_frame_def sample_page_def df_empty_def)

lemma cache_ok_get_cached_data:
  "cache_ok memory_cache \<Longrightarrow> cache_ok (snd (get_cached_data now year memory_cache))"
  by (auto simp: cache_ok_def get_cached_data_def split: option.splits if_splits)

lemma cache_ok_cache_data:
  "cache_ok memory_cache \<Longrightarrow> \<not> df_empty data \<Longrightarrow> cache_ok (cache_data now year data memory_cache)"
  by (auto simp: cache_ok_def cache_data_def)

lemma cache_ok_fetch_nhtsa_data:
  assumes "cache_ok memory_cache"
    and "fetch_nhtsa_data upstream now now' year memory_cache = (data, requested, memory_cache')"
  shows "cache_ok memory_cache'"
proof (cases "get_cached_data now year memory_cache")
  case (Pair hit memory_cache0)
  with assms(1) cache_ok_get_cached_data [of memory_cache now year]
  have ok0: "cache_ok memory_cache0" by simp
  show ?thesis
  proof (cases hit)
    case (Some cached_data)
    with Pair assms(2) ok0 show ?thesis by (simp add: fetch_nhtsa_data_def)
  next
    case None
    with Pair assms(2) ok0 show ?thesis
      by (auto simp: fetch_nhtsa_data_def cache_ok_cache_data split: prod.splits if_splits)
  qed
qed

lemma reachable_cache_ok: "reachable memory_cache \<Longrightarrow> cache_ok memory_cache"
proof (induction rule: reachable.induct)
  case start
  show ?case by (simp add: cache_ok_def)
next
  case (request memory_cache upstream now now' year data requested memory_cache')
  then show ?case by (blast intro: cache_ok_fetch_nhtsa_data)
qed

lemma empty_result_not_cached:
  assumes "cache_ok memory_cache"
    and "fetch_nhtsa_data upstream now now' year memory_cache = (data, requested, memory_cache')"
    and "df_empty data"
  shows "memory_cache' year = None"
  using assms
  by (auto simp: fetch_nhtsa_data_def get_cached_data_def cache_ok_def
           split: option.splits if_splits prod.splits)

lemma uncached_year_fetches:
  assumes "memory_cache year = None"
  shows "\<exists>rest. fst (snd (fetch_nhtsa_data upstream now now' year memory_cache)) = 1 # rest"
proof -
  obtain res req where f: "fetch_pages (upstream year) 1 empty_frame = (res, req)"
    by fastforce
  from fetch_pages_first [OF f] obtain rest where "req = 1 # rest" ..
  with f assms show ?thesis
    by (simp add: fetch_nhtsa_data_def get_cached_data_def)
qed

text \<open>
  Claim C10.  In every cache state the program can reach, no entry holds an empty table.
  Reading the cache keeps it so, \<open>cache_data\<close> keeps it so for a non-empty table (the only
  way \<open>fetch_nhtsa_data\<close> calls it), and \<open>fetch_nhtsa_data\<close> keeps it so.  When
  \<open>fetch_nhtsa_data\<close> returns an empty table, the year has no entry afterwards, and the
  next \<open>fetch_nhtsa_data\<close> for that year requests page 1 from the remote service again.
\<close>

theorem cache_holds_no_empty_table:
  assumes "reachable memory_cache"
  shows "cache_ok memory_cache \<and>
         cache_ok (snd (get_cached_data now year memory_cache)) \<and>
         (\<not> df_empty data \<longrightarrow> cache_ok (cache_data now year data memory_cache)) \<and>
         (\<forall>result requested memory_cache'.
            fetch_nhtsa_data upstream now now' year memory_cache = (result, requested, memory_cache')
            \<longrightarrow> cache_ok memory_cache' \<and>
                (memory_cache' year \<noteq> None \<longrightarrow> \<not> df_empty result) \<and>
                (df_empty result \<longrightarrow> memory_cache' year = None \<and>
                   (\<forall>upstream2 t t'. \<exists>rest.
                      fst (snd (fetch_nhtsa_data upstream2 t t' year memory_cache')) = 1 # rest)))"
proof -
  from assms have ok: "cache_ok memory_cache" by (rule reachable_cache_ok)
  have a: "cache_ok (snd (get_cached_data now year memory_cache))"
    by (rule cache_ok_get_cached_data [OF ok])
  have b: "\<not> df_empty data \<longrightarrow> cache_ok (cache_data now year data memory_cache)"
    using cache_ok_cache_data [OF ok] by simp
  have c: "cache_ok memory_cache' \<and>
           (memory_cache' year \<noteq> None \<longrightarrow> \<not> df_empty result) \<and>
           (df_empty result \<longrightarrow> memory_cache' year = None \<and>
              (\<forall>upstream2 t t'. \<exists>rest.
                 fst (snd (fetch_nhtsa_data upstream2 t t' year memory_cache')) = 1 # rest))"
    if f: "fetch_nhtsa_data upstream now now' year memory_cache = (result, requested, memory_cache')"
    for result requested memory_cache'
  proof -
    have c1: "cache_ok memory_cache'" by (rule cache_ok_fetch_nhtsa_data [OF ok f])
    have c2: "memory_cache' year = None" if "df_empty result"
      using ok f that by (rule empty_result_not_cached)
    have c3: "\<forall>upstream2 t t'. \<exists>rest.
                 fst (snd (fetch_nhtsa_data upstream2 t t' year memory_cache')) = 1 # rest"
      if "memory_cache' year = None"
      using that uncached_year_fetches [of "memory_cache'" year] by blast
    show ?thesis
    proof (intro conjI impI)
      show "cache_ok memory_cache'" by (rule c1)
    next
      assume "memory_cache' year \<noteq> None"
      with c2 show "\<not> df_empty result" by blast
    next
      assume "df_empty result"
      then show "memory_cache' year = None" by (rule c2)
    next
      assume "df_empty result"
      then have "memory_cache' year = None" by (rule c2)
      then show "\<forall>upstream2 t t'. \<exists>rest.
                 fst (snd (fetch_nhtsa_data upstream2 t t' year memory_cache')) = 1 # rest"
        by (rule c3)
    qed
  qed
  from ok a b c show ?thesis by simp
qed

lemma failing_fetch:
  "fetch_nhtsa_data failing_upstream 0 5 2020 Map.empty = (empty_frame, [1], Map.empty)"
  by (subst fetch_nhtsa_data_def, subst fetch_pages.simps)
     (simp add: get_cached_data_def failing_upstream_def max_pages_def empty_frame_def df_empty_def)

theorem cache_holds_no_empty_table_witness:
  "reachable Map.empty \<and> cache_ok Map.empty \<and>
   fetch_nhtsa_data failing_upstream 0 5 2020 Map.empty = (empty_frame, [1], Map.empty) \<and>
   df_empty empty_frame \<and>
   (\<exists>rest. fst (snd (fetch_nhtsa_data failing_upstream 9 9 2020 Map.empty)) = 1 # rest)"
  using cache_holds_no_empty_table [OF reachable.start, of 0 2020 empty_frame failing_upstream 5]
  by (simp add: failing_fetch empty_frame_def df_empty_def reachable.start)

section \<open>Properties of the views\<close>

lemma set_insort_by: "set (insort_by le x ys) = insert x (set ys)"
  by (induction ys) auto

lemma set_stable_sort: "set (stable_sort le xs) = set xs"
  by (induction xs) (auto simp: stable_sort_def set_insort_by)

lemma distinct_map_insort_by:
  "distinct (map f (insort_by le x ys)) \<longleftrightarrow> f x \<notin> f ` set ys \<and> distinct (map f ys)"
  by (induction ys) (auto simp: set_insort_by)

lemma distinct_map_stable_sort:
  "distinct (map f (stable_sort le xs)) \<longleftrightarrow> distinct (map f xs)"
  by (induction xs) (auto simp: stable_sort_def distinct_map_insort_by set_stable_sort [unfolded stable_sort_def])

text \<open>A stable sort keeps an order that the list already has among the elements it ties.\<close>

lemma sorted_wrt_insort_by:
  assumes total: "\<And>a b. le a b \<or> le b a"
    and trans: "\<And>a b c. le a b \<Longrightarrow> le b c \<Longrightarrow> le a c"
    and "sorted_wrt (\<lambda>a b. le a b \<and> (le b a \<longrightarrow> R a b)) ys"
    and "\<forall>y \<in> set ys. R x y"
  shows "sorted_wrt (\<lambda>a b. le a b \<and> (le b a \<longrightarrow> R a b)) (insort_by le x ys)"
  using assms(3,4)
proof (induction ys)
  case Nil
  then show ?case by simp
next
  case (Cons y ys)
  show ?case
  proof (cases "le x y")
    case True
    have "le x z" if "z \<in> set ys" for z
      using Cons.prems(1) that True trans by auto
    with True Cons.prems show ?thesis by auto
  next
    case False
    with total have "le y x" by blast
    with False Cons show ?thesis by (auto simp: set_insort_by)
  qed
qed

lemma sorted_wrt_stable_sort:
  assumes total: "\<And>a b. le a b \<or> le b a"
    and trans: "\<And>a b c. le a b \<Longrightarrow> le b c \<Longrightarrow> le a c"
    and "sorted_wrt R xs"
  shows "sorted_wrt (\<lambda>a b. le a b \<and> (le b a \<longrightarrow> R a b)) (stable_sort le xs)"
  using assms(3)
proof (induction xs)
  case Nil
  then show ?case by (simp add: stable_sort_def)
next
  case (Cons x xs)
  then have "sorted_wrt (\<lambda>a b. le a b \<and> (le b a \<longrightarrow> R a b)) (stable_sort le xs)"
    and "\<forall>y \<in> set (stable_sort le xs). R x y"
    by (simp_all add: set_stable_sort)
  then have "sorted_wrt (\<lambda>a b. le a b \<and> (le b a \<longrightarrow> R a b)) (insort_by le x (stable_sort le xs))"
    by (intro sorted_wrt_insort_by total) (auto intro: trans)
  then show ?case by (simp add: stable_sort_def)
qed

lemma cell_asc_total: "cell_asc a b \<or> cell_asc b a"
  by (cases a; cases b) auto

lemma cell_asc_trans: "cell_asc a b \<Longrightarrow> cell_asc b c \<Longrightarrow> cell_asc a c"
  by (cases a; cases b; cases c) auto




lemma drop_duplicates_seen_props:
  "distinct (map key (drop_duplicates_seen key seen xs)) \<and>
   key ` set (drop_duplicates_seen key seen xs) = key ` set xs - set seen \<and>
   set (drop_duplicates_seen key seen xs) \<subseteq> set xs"
  by (induction key seen xs rule: drop_duplicates_seen.induct) auto

lemma drop_duplicates_props:
  "distinct (map key (drop_duplicates key xs))"
  "key ` set (drop_duplicates key xs) = key ` set xs"
  "set (drop_duplicates key xs) \<subseteq> set xs"
  using drop_duplicates_seen_props [of key "[]" xs] by (simp_all add: drop_duplicates_def)


lemma sorted_wrt_cell_asc_stable_sort: "sorted_wrt cell_asc (stable_sort cell_asc ms)"
proof -
  have 0: "sorted_wrt (\<lambda>a b. True) ms" by (induction ms) simp_all
  have "sorted_wrt (\<lambda>a b. cell_asc a b \<and> (cell_asc b a \<longrightarrow> True)) (stable_sort cell_asc ms)"
    using cell_asc_total cell_asc_trans 0
    by (rule sorted_wrt_stable_sort [where le = cell_asc and R = "\<lambda>a b. True"])
  then show ?thesis by simp
qed

lemma py_strip_empty: "py_strip s = [] \<longleftrightarrow> blank s"
proof
  assume "blank s"
  then have d: "dropWhile py_isspace s = []"
    by (simp add: blank_def list_all_iff)
  show "py_strip s = []" unfolding py_strip_def d by simp
next
  let ?d = "dropWhile py_isspace s"
  assume "py_strip s = []"
  then have all: "\<forall>x \<in> set ?d. py_isspace x"
    by (simp add: py_strip_def dropWhile_eq_Nil_conv)
  have "?d = []"
  proof (rule ccontr)
    assume ne: "?d \<noteq> []"
    then have "\<not> py_isspace (hd ?d)" by (rule hd_dropWhile)
    moreover from ne have "hd ?d \<in> set ?d" by simp
    ultimately show False using all by blast
  qed
  then show "blank s" by (simp add: blank_def list_all_iff dropWhile_eq_Nil_conv)
qed

lemma sorted_strings:
  "sorted_wrt cell_asc ms \<Longrightarrow> NaN \<notin> set ms \<Longrightarrow> sorted (map str_of_cell ms)"
proof (induction ms)
  case Nil
  then show ?case by simp
next
  case (Cons m ms)
  have "str_of_cell m \<le> str_of_cell x" if "x \<in> set ms" for x
  proof -
    from Cons.prems that have "cell_asc m x" "m \<noteq> NaN" "x \<noteq> NaN" by auto
    then show ?thesis by (cases m; cases x) auto
  qed
  with Cons show ?case by auto
qed

lemma json_of_text_cells:
  "NaN \<notin> set ms \<Longrightarrow> map json_of_cell ms = map JStr (map str_of_cell ms)"
proof (induction ms)
  case Nil
  then show ?case by simp
next
  case (Cons m ms)
  then show ?case by (cases m) auto
qed

lemma distinct_unique: "distinct (unique xs)" and set_unique: "set (unique xs) = set xs"
  using drop_duplicates_props(1,2) [of "\<lambda>x. x" xs] by (simp_all add: unique_def)

lemma inj_on_str_of_cell: "NaN \<notin> set ms \<Longrightarrow> inj_on str_of_cell (set ms)"
proof (rule inj_onI)
  fix a b
  assume "NaN \<notin> set ms" "a \<in> set ms" "b \<in> set ms" "str_of_cell a = str_of_cell b"
  then show "a = b" by (cases a; cases b) auto
qed

text \<open>
  Claim C8, as amended.  For a non-empty table with a \<open>manufacturername\<close> column in which
  no cell is missing, \<open>get_manufacturers\<close> with a sort other than \<open>date\<close> returns the
  distinct manufacturer names that have a non-whitespace character, in ascending order of
  their code points (so upper case before lower case).
\<close>

theorem manufacturers_by_name_sorted:
  assumes "\<not> df_empty data"
    and "col_manufacturername \<in> set (columns data)"
    and "sort_by \<noteq> ustr ''date''"
    and "NaN \<notin> set (column_values data col_manufacturername)"
  shows "\<exists>names.
           get_manufacturers_body to_dt strftime year sort_by data =
             Jsonify [(''manufacturers'', JList (map JStr names)),
                      (''sorted_by'', JStr (ustr ''name''))] \<and>
           sorted names \<and> distinct names \<and>
           set names = {s. Str s \<in> set (column_values data col_manufacturername) \<and> \<not> blank s}"
proof -
  let ?col = "column_values data col_manufacturername"
  let ?kept = "filter (\<lambda>m. truthy m \<and> py_strip (str_of_cell m) \<noteq> []) (unique ?col)"
  let ?ms = "stable_sort cell_asc ?kept"
  let ?names = "map str_of_cell ?ms"
  have no_nan: "NaN \<notin> set ?kept" using assms(4) by (simp add: set_unique)
  then have no_nan': "NaN \<notin> set ?ms" by (simp add: set_stable_sort)
  have by_name: "manufacturers_by_name data = Inr ?ms"
    using no_nan by (simp add: manufacturers_by_name_def py_sorted_def)
  have resp: "get_manufacturers_body to_dt strftime year sort_by data =
      Jsonify [(''manufacturers'', JList (map JStr ?names)), (''sorted_by'', JStr (ustr ''name''))]"
    using assms(1,2,3) by_name json_of_text_cells [OF no_nan']
    by (simp add: get_manufacturers_body_def)
  have srt: "sorted ?names"
    using sorted_wrt_cell_asc_stable_sort no_nan' by (rule sorted_strings)
  have "distinct ?kept" by (simp add: distinct_unique)
  with distinct_map_stable_sort [of "\<lambda>x. x" cell_asc ?kept] have "distinct ?ms" by simp
  with inj_on_str_of_cell [OF no_nan'] have dst: "distinct ?names"
    by (simp add: distinct_map)
  have "set ?names = str_of_cell ` set ?kept" by (simp add: set_stable_sort)
  also have "\<dots> = {s. Str s \<in> set ?col \<and> \<not> blank s}"
  proof (intro set_eqI iffI)
    fix s
    assume "s \<in> str_of_cell ` set ?kept"
    then obtain m where m: "m \<in> set ?col" "py_strip (str_of_cell m) \<noteq> []"
      and s: "s = str_of_cell m"
      by (auto simp: set_unique)
    from m(1) assms(4) have "m \<noteq> NaN" by auto
    then obtain t where t: "m = Str t" by (cases m) auto
    from m have "Str t \<in> set ?col" "\<not> blank t" unfolding t by (simp_all add: py_strip_empty)
    moreover from s t have "s = t" by simp
    ultimately show "s \<in> {s. Str s \<in> set ?col \<and> \<not> blank s}" by simp
  next
    fix s
    assume "s \<in> {s. Str s \<in> set ?col \<and> \<not> blank s}"
    then have "Str s \<in> set ?col" "\<not> blank s" by simp_all
    moreover from \<open>\<not> blank s\<close> have "s \<noteq> []" by (auto simp: blank_def)
    ultimately have "Str s \<in> set ?kept" by (simp add: set_unique py_strip_empty)
    then show "s \<in> str_of_cell ` set ?kept" by force
  qed
  finally have st: "set ?names = {s. Str s \<in> set ?col \<and> \<not> blank s}" .
  from resp srt dst st show ?thesis by blast
qed

text \<open>The sample table has the manufacturers A and B.\<close>

theorem manufacturers_by_name_sorted_witness:
  "\<not> df_empty letters_page \<and> col_manufacturername \<in> set (columns letters_page) \<and>
   ustr ''name'' \<noteq> ustr ''date'' \<and>
   NaN \<notin> set (column_values letters_page col_manufacturername) \<and>
   (\<exists>names.
      get_manufacturers_body parse_mdy iso_date 2020 (ustr ''name'') letters_page =
        Jsonify [(''manufacturers'', JList (map JStr names)),
                 (''sorted_by'', JStr (ustr ''name''))] \<and>
      sorted names \<and> distinct names \<and>
      set names = {s. Str s \<in> set (column_values letters_page col_manufacturername) \<and> \<not> blank s})"
proof -
  have a: "\<not> df_empty letters_page" by code_simp
  have b: "col_manufacturername \<in> set (columns letters_page)" by code_simp
  have c: "ustr ''name'' \<noteq> ustr ''date''" by code_simp
  have d: "NaN \<notin> set (column_values letters_page col_manufacturername)" by code_simp
  from a b c d manufacturers_by_name_sorted [OF a b c d, of parse_mdy iso_date 2020]
  show ?thesis by blast
qed

text \<open>
  Claim C8, as stated, fails: a manufacturer name made of whitespace is in the table and is
  not in the list returned.
\<close>

theorem blank_manufacturer_not_listed:
  "get_manufacturers_body parse_mdy iso_date 2020 (ustr ''name'') blank_page =
     Jsonify [(''manufacturers'', JList [JStr (ustr ''A'')]),
              (''sorted_by'', JStr (ustr ''name''))] \<and>
   Str (ustr '' '') \<in> set (column_values blank_page col_manufacturername)"
  by code_simp










text \<open>
  Claim C7 fails on a table without the \<open>manufacturername\<close> column: \<open>get_versions\<close>
  and \<open>get_pdf\<close> raise \<open>KeyError\<close>, which no handler catches, so the answer has status
  500 and no \<open>error\<close> field; \<open>get_manufacturers\<close> checks for the column and returns the
  JSON error.
\<close>

theorem missing_column_uncaught:
  "fst (get_versions renamed_upstream 0 5 parse_mdy 2020 [ustr ''A''] Map.empty) =
     Uncaught (KeyError (ustr ''manufacturername'')) \<and>
   http_status (fst (get_versions renamed_upstream 0 5 parse_mdy 2020 [ustr ''A''] Map.empty)) = 500 \<and>
   \<not> has_error_field (fst (get_versions renamed_upstream 0 5 parse_mdy 2020 [ustr ''A''] Map.empty)) \<and>
   fst (get_pdf renamed_upstream 0 5 ascii_lower sample_pdf_host sample_header_error 2020 GET
          (Some (ustr ''A'')) (Some (ustr ''v1'')) Map.empty) =
     Uncaught (KeyError (ustr ''manufacturername'')) \<and>
   fst (get_manufacturers renamed_upstream 0 5 parse_mdy iso_date 2020 None Map.empty) =
     Jsonify [(''manufacturers'', JList []),
              (''error'', JStr (ustr ''Invalid data format received from API''))]"
  by code_simp

text \<open>
  Claim C5 fails on the sample table: manufacturer A has letters of 9/5/2020 and
  12/31/2020, and B of 10/1/2020.  The greatest string of A is 9/5/2020, so A is listed with
  2020-09-05 after B, although its most recent letter is later than B's.
\<close>

theorem latest_date_is_string_maximum:
  "fst (get_manufacturers letters_upstream 0 5 parse_mdy iso_date 2020 (Some (ustr ''date'')) Map.empty) =
     Jsonify [(''manufacturers'',
               JList [JObj [(''name'', JStr (ustr ''B'')),
                            (''latest_date'', JStr (ustr ''2020-10-01''))],
                      JObj [(''name'', JStr (ustr ''A'')),
                            (''latest_date'', JStr (ustr ''2020-09-05''))]]),
              (''sorted_by'', JStr (ustr ''date''))] \<and>
   letter ''A'' ''v2'' ''12/31/2020'' ''u2'' \<in> set (rows letters_page) \<and>
   parse_mdy [] (ustr ''12/31/2020'') = Some (2020, 12, 31) \<and>
   parse_mdy [] (ustr ''10/1/2020'') = Some (2020, 10, 1) \<and>
   ((2020, 10, 1) :: nat \<times> nat \<times> nat) < (2020, 12, 31)"
  by code_simp

end
